theory Spec2Isabelle
  imports Complex_Main "HOL-Library.Word" "HOL-Library.Multiset"
begin

section \<open>Coordinates and the base segment string\<close>

text \<open>
  \<^verbatim>\<open>RelateSegmentString.cpp\<close> works on \<^verbatim>\<open>CoordinateXY\<close> values (two doubles) held in a
  \<^verbatim>\<open>CoordinateSequence\<close>. A coordinate is modelled as a pair of reals (finite doubles; a
  NaN ordinate, which is not equal to itself, is outside the model), a sequence as the
  list of its points. Indices and sizes are \<^verbatim>\<open>std::size_t\<close>: 64-bit words whose
  arithmetic wraps, as \<^verbatim>\<open>segIndex + 1\<close> and \<^verbatim>\<open>size() - 2\<close> do in the source.
\<close>

datatype CoordinateXY = CoordinateXY (xcoord: real) (ycoord: real)

type_synonym size_t = "64 word"

datatype error = OutOfRange | UseAfterFree | NullSequence

text \<open>Sequencing of fallible steps: the first failure is the result.\<close>

definition bind_err :: "error + 'a \<Rightarrow> ('a \<Rightarrow> error + 'b) \<Rightarrow> error + 'b" where
  "bind_err m f = (case m of Inl e \<Rightarrow> Inl e | Inr v \<Rightarrow> f v)"

text \<open>
  Modelled from the spec: \<^verbatim>\<open>CoordinateXY::equals2D\<close> is declared in Coordinate.h, which is
  not part of the sources; the spec calls it 2D equality of the two points.
\<close>

definition equals2D :: "CoordinateXY \<Rightarrow> CoordinateXY \<Rightarrow> bool" where
  "equals2D a b = (xcoord a = xcoord b \<and> ycoord a = ycoord b)"

text \<open>
  The walk. \<open>seq\<close> is the content of the sequence the member pointer \<^verbatim>\<open>seq\<close> points to,
  \<open>csStore\<close> the content of the sequence owned by the \<^verbatim>\<open>unique_ptr\<close> member (\<open>None\<close>
  when it is empty), and \<open>seq_in_csStore\<close> records whether \<^verbatim>\<open>seq\<close> points into the
  owned store (after \<^verbatim>\<open>seq = csStore.get()\<close>) or still at the caller's sequence. The
  remaining fields are the context members. Pointers to the polygon and to the operand
  geometry are values of the type parameters, \<open>None\<close> for \<^verbatim>\<open>nullptr\<close>.
\<close>

record ('g, 'r) RelateSegmentString =
  seq :: "CoordinateXY list"
  seq_in_csStore :: bool
  csStore :: "CoordinateXY list option"
  m_isA :: bool
  m_dimension :: int
  m_id :: int
  m_ringId :: int
  m_parentPolygonal :: "'g option"
  m_inputGeom :: "'r option"

text \<open>
  Modelled from the spec: \<^verbatim>\<open>SegmentString::size\<close> and \<^verbatim>\<open>SegmentString::getCoordinate\<close>
  belong to the base class, which is not part of the sources; the spec lists them as the
  element count and the indexed coordinate access of the base sequence. An index outside
  the sequence is a caller defect (section 7 of the spec): here it is the error
  \<open>OutOfRange\<close>.
\<close>

definition size_ss :: "('g, 'r) RelateSegmentString \<Rightarrow> size_t" where
  "size_ss w = of_nat (length (seq w))"

definition getCoordinate :: "('g, 'r) RelateSegmentString \<Rightarrow> size_t \<Rightarrow> error + CoordinateXY" where
  "getCoordinate w i = (if unat i < length (seq w) then Inr (seq w ! unat i) else Inl OutOfRange)"

text \<open>
  Modelled from the spec: \<^verbatim>\<open>SegmentString::isClosed\<close> belongs to the base class; the spec
  defines a closed walk as one whose first point equals its last. Reading the first point
  of an empty sequence is out of range.
\<close>

definition isClosed :: "('g, 'r) RelateSegmentString \<Rightarrow> error + bool" where
  "isClosed w = (case seq w of [] \<Rightarrow> Inl OutOfRange | p # ps \<Rightarrow> Inr (equals2D p (last (p # ps))))"

text \<open>
  Modelled from the spec: \<^verbatim>\<open>SegmentString::prevInRing\<close> and \<^verbatim>\<open>SegmentString::nextInRing\<close>
  belong to the base class; the spec describes them as the ring-aware lookups of the vertex
  immediately before and immediately after an index, with index arithmetic that wraps
  across the closing point: before index 0 comes the second-to-last vertex (the last one
  repeats the first), and after the last index comes vertex 1.
\<close>

definition prevInRing :: "('g, 'r) RelateSegmentString \<Rightarrow> size_t \<Rightarrow> error + CoordinateXY" where
  "prevInRing w index =
     (let prevIndex = (if index = 0 then size_ss w - 2 else index - 1)
      in getCoordinate w prevIndex)"

definition nextInRing :: "('g, 'r) RelateSegmentString \<Rightarrow> size_t \<Rightarrow> error + CoordinateXY" where
  "nextInRing w index =
     (let nextIndex = index + 1;
          nextIndex' = (if nextIndex > size_ss w - 1 then 1 else nextIndex)
      in getCoordinate w nextIndex')"

section \<open>Neighbour lookup\<close>

text \<open>
  \<^verbatim>\<open>prevVertex\<close> and \<^verbatim>\<open>nextVertex\<close> return a pointer to a coordinate of the sequence, or
  \<^verbatim>\<open>nullptr\<close>: \<open>Inr (Some c)\<close> and \<open>Inr None\<close>. The constant \<^verbatim>\<open>INDEX_UNKNOWN\<close> that
  \<^verbatim>\<open>nextVertex\<close> compares with is declared outside the sources, so it is a parameter of
  the model.
\<close>

definition prevVertex ::
  "('g, 'r) RelateSegmentString \<Rightarrow> size_t \<Rightarrow> CoordinateXY \<Rightarrow> error + CoordinateXY option" where
  "prevVertex w segIndex pt =
     bind_err (getCoordinate w segIndex) (\<lambda>segStart.
       if \<not> equals2D segStart pt then Inr (Some segStart)
       else if segIndex > 0 then
         bind_err (getCoordinate w (segIndex - 1)) (\<lambda>c. Inr (Some c))
       else
         bind_err (isClosed w) (\<lambda>closed.
           if closed then bind_err (prevInRing w segIndex) (\<lambda>c. Inr (Some c))
           else Inr None))"

definition nextVertex ::
  "size_t \<Rightarrow> ('g, 'r) RelateSegmentString \<Rightarrow> size_t \<Rightarrow> CoordinateXY \<Rightarrow> error + CoordinateXY option" where
  "nextVertex INDEX_UNKNOWN w segIndex pt =
     bind_err (getCoordinate w (segIndex + 1)) (\<lambda>segEnd.
       if \<not> equals2D segEnd pt then Inr (Some segEnd)
       else if size_ss w = 2 \<and> segIndex = INDEX_UNKNOWN then
         bind_err (getCoordinate w 0) (\<lambda>c. Inr (Some c))
       else if segIndex < size_ss w - 2 then
         bind_err (getCoordinate w (segIndex + 2)) (\<lambda>c. Inr (Some c))
       else
         bind_err (isClosed w) (\<lambda>closed.
           if closed then bind_err (nextInRing w (segIndex + 1)) (\<lambda>c. Inr (Some c))
           else Inr None))"

section \<open>Node sections\<close>

text \<open>
  Modelled from the spec: the class \<^verbatim>\<open>NodeSection\<close> is declared in NodeSection.h, not part
  of the sources. The spec's data model gives its fields; they are listed in the order of
  the constructor call in \<^verbatim>\<open>createNodeSection\<close>.
\<close>

record 'g NodeSection =
  ns_isA :: bool
  ns_dimension :: int
  ns_id :: int
  ns_ringId :: int
  ns_polygonal :: "'g option"
  ns_isNodeAtVertex :: bool
  ns_prev :: "CoordinateXY option"
  ns_nodePt :: CoordinateXY
  ns_next :: "CoordinateXY option"

definition createNodeSection ::
  "size_t \<Rightarrow> ('g, 'r) RelateSegmentString \<Rightarrow> size_t \<Rightarrow> CoordinateXY \<Rightarrow> error + 'g NodeSection" where
  "createNodeSection INDEX_UNKNOWN w segIndex intPt =
     bind_err (getCoordinate w segIndex) (\<lambda>c0.
     bind_err (getCoordinate w (segIndex + 1)) (\<lambda>c1.
       let isNodeAtVertex = (equals2D intPt c0 \<or> equals2D intPt c1) in
       bind_err (prevVertex w segIndex intPt) (\<lambda>prev.
       bind_err (nextVertex INDEX_UNKNOWN w segIndex intPt) (\<lambda>next.
         Inr \<lparr> ns_isA = m_isA w, ns_dimension = m_dimension w, ns_id = m_id w,
               ns_ringId = m_ringId w, ns_polygonal = m_parentPolygonal w,
               ns_isNodeAtVertex = isNodeAtVertex, ns_prev = prev, ns_nodePt = intPt,
               ns_next = next \<rparr>))))"

section \<open>Intersection ownership\<close>

definition isContainingSegment ::
  "('g, 'r) RelateSegmentString \<Rightarrow> size_t \<Rightarrow> CoordinateXY \<Rightarrow> error + bool" where
  "isContainingSegment w segIndex pt =
     bind_err (getCoordinate w segIndex) (\<lambda>c0.
       if equals2D pt c0 then Inr True
       else
         bind_err (getCoordinate w (segIndex + 1)) (\<lambda>c1.
           if equals2D pt c1 then
             (let isFinalSegment = (segIndex = size_ss w - 2) in
              bind_err (isClosed w) (\<lambda>closed.
                if closed \<or> \<not> isFinalSegment then Inr False
                else Inr True))
           else Inr True))"

section \<open>Orientation and duplicate-point normalisation\<close>

text \<open>
  Modelled from the spec: \<^verbatim>\<open>CoordinateSequence::hasRepeatedPoints\<close> is declared in
  CoordinateSequence.h, not part of the sources; the spec defines it as "whether any two
  consecutive points are coordinate-equal".
\<close>

fun hasRepeatedPoints :: "CoordinateXY list \<Rightarrow> bool" where
  "hasRepeatedPoints (p # q # ps) = (equals2D p q \<or> hasRepeatedPoints (q # ps))"
| "hasRepeatedPoints ps = False"

text \<open>
  Modelled from the spec: \<^verbatim>\<open>RepeatedPointRemover::removeRepeatedPoints\<close> is declared in
  RepeatedPointRemover.h, not part of the sources; the spec describes its result as "a new
  sequence with consecutive duplicates collapsed". The first point of every run is kept.
\<close>

fun removeRepeatedPoints :: "CoordinateXY list \<Rightarrow> CoordinateXY list" where
  "removeRepeatedPoints (p # q # ps) =
     (if equals2D p q then removeRepeatedPoints (p # ps) else p # removeRepeatedPoints (q # ps))"
| "removeRepeatedPoints ps = ps"

text \<open>
  Modelled from the spec: \<^verbatim>\<open>Orientation::isCCW\<close> is declared in Orientation.h, not part of
  the sources; the spec says the orientation is "computed from signed area / winding".
  \<open>signedArea2\<close> is twice the signed area of the ring by the shoelace sum over its
  consecutive points, positive for a counter-clockwise ring. No theorem below except the
  evaluations on the concrete square depends on how \<open>isCCW\<close> is computed.
\<close>

fun signedArea2 :: "CoordinateXY list \<Rightarrow> real" where
  "signedArea2 (p # q # ps) =
     (xcoord p * ycoord q - xcoord q * ycoord p) + signedArea2 (q # ps)"
| "signedArea2 ps = 0"

definition isCCW :: "CoordinateXY list \<Rightarrow> bool" where
  "isCCW ring = (0 < signedArea2 ring)"

text \<open>
  Modelled from the spec: \<^verbatim>\<open>CoordinateSequence::clone\<close> and \<^verbatim>\<open>CoordinateSequence::reverse\<close>
  are declared in CoordinateSequence.h, not part of the sources; the spec has the walk
  "clone the original sequence and reverse the clone", the reversal being of the point
  order, in place.
\<close>

definition clone :: "CoordinateXY list \<Rightarrow> CoordinateXY list" where
  "clone s = s"

definition reverse :: "CoordinateXY list \<Rightarrow> CoordinateXY list" where
  "reverse s = rev s"

text \<open>
  \<^verbatim>\<open>orientAndRemoveRepeated\<close>, statement by statement. An assignment to \<^verbatim>\<open>csStore\<close> destroys
  the sequence the \<^verbatim>\<open>unique_ptr\<close> owned before. When \<^verbatim>\<open>seq\<close> pointed into that store
  (\<open>seq_in_csStore\<close>) and the first assignment has run, \<^verbatim>\<open>seq\<close> dangles, and the read
  \<^verbatim>\<open>seq->clone()\<close> of the second block is a use after free: the error \<open>UseAfterFree\<close>.
  The final \<^verbatim>\<open>seq = csStore.get()\<close> makes \<^verbatim>\<open>seq\<close> point into the store; an empty store
  there (which no path reaches) is the error \<open>NullSequence\<close>.
\<close>

definition orientAndRemoveRepeated ::
  "bool \<Rightarrow> ('g, 'r) RelateSegmentString \<Rightarrow> error + ('g, 'r) RelateSegmentString" where
  "orientAndRemoveRepeated orientCW w =
     (let isFlipped = (orientCW = isCCW (seq w));
          hasRepeated = hasRepeatedPoints (seq w)
      in if \<not> isFlipped \<and> \<not> hasRepeated then Inr w
         else
           let store1 = (if hasRepeated
                         then Some (let d = removeRepeatedPoints (seq w)
                                    in if isFlipped then reverse d else d)
                         else csStore w);
               seq_freed = (hasRepeated \<and> seq_in_csStore w)
           in bind_err (if isFlipped
                        then (if seq_freed then Inl UseAfterFree
                              else Inr (Some (reverse (clone (seq w)))))
                        else Inr store1) (\<lambda>store2.
                case store2 of
                  None \<Rightarrow> Inl NullSequence
                | Some s \<Rightarrow> Inr (w\<lparr>seq := s, seq_in_csStore := True, csStore := store2\<rparr>)))"

definition removeRepeated :: "('g, 'r) RelateSegmentString \<Rightarrow> ('g, 'r) RelateSegmentString" where
  "removeRepeated w =
     (let hasRepeated = hasRepeatedPoints (seq w)
      in if \<not> hasRepeated then w
         else let d = removeRepeatedPoints (seq w)
              in w\<lparr>seq := d, seq_in_csStore := True, csStore := Some d\<rparr>)"

section \<open>Walks as the constructor leaves them\<close>

text \<open>
  Modelled from the spec: the constructor of \<^verbatim>\<open>RelateSegmentString\<close> is declared in
  RelateSegmentString.h, not part of the sources. By section 4.1 of the spec it stores the
  context and "does not copy the input coordinate sequence; it borrows it". \<open>borrowing\<close>
  is that state, before any normalisation has run.
\<close>

definition borrowing ::
  "CoordinateXY list \<Rightarrow> bool \<Rightarrow> int \<Rightarrow> int \<Rightarrow> int \<Rightarrow> 'g option \<Rightarrow> 'r option
     \<Rightarrow> ('g, 'r) RelateSegmentString" where
  "borrowing pts isA dimension elementId ringId poly parent =
     \<lparr> seq = pts, seq_in_csStore = False, csStore = None, m_isA = isA, m_dimension = dimension,
       m_id = elementId, m_ringId = ringId, m_parentPolygonal = poly, m_inputGeom = parent \<rparr>"

text \<open>An open line and a ring (dimensions \<^verbatim>\<open>Dimension::L\<close> = 1 and \<^verbatim>\<open>Dimension::A\<close> = 2) without parents.\<close>

definition line_of :: "CoordinateXY list \<Rightarrow> (unit, unit) RelateSegmentString" where
  "line_of pts = borrowing pts True 1 0 (- 1) None None"

definition ring_of :: "CoordinateXY list \<Rightarrow> (unit, unit) RelateSegmentString" where
  "ring_of pts = borrowing pts True 2 0 0 None None"

section \<open>Index arithmetic and the functions at valid indices\<close>

lemma equals2D_iff: "equals2D a b \<longleftrightarrow> a = b"
  by (cases a; cases b) (simp add: equals2D_def)

lemma bind_err_Inr: "bind_err (Inr v) f = f v"
  by (simp add: bind_err_def)

lemma bind_err_Inl: "bind_err (Inl e) f = Inl e"
  by (simp add: bind_err_def)

lemma getCoordinate_valid: "unat i < length (seq w) \<Longrightarrow> getCoordinate w i = Inr (seq w ! unat i)"
  by (simp add: getCoordinate_def)

lemma isClosed_nonempty: "seq w \<noteq> [] \<Longrightarrow> isClosed w = Inr (hd (seq w) = last (seq w))"
  by (cases "seq w") (simp_all add: isClosed_def equals2D_iff)

lemma unat_size_ss: "length (seq w) < 2 ^ 64 \<Longrightarrow> unat (size_ss w) = length (seq w)"
  by (simp add: size_ss_def unat_of_nat)

lemma unat_succ:
  fixes i :: size_t
  shows "unat i + 1 < n \<Longrightarrow> n < 2 ^ 64 \<Longrightarrow> unat (i + 1) = unat i + 1"
  by (simp add: unat_word_ariths)

lemma unat_succ2:
  fixes i :: size_t
  shows "unat i + 2 < n \<Longrightarrow> n < 2 ^ 64 \<Longrightarrow> unat (i + 2) = unat i + 2"
  by (simp add: unat_word_ariths)

lemma unat_size_minus2:
  "2 \<le> length (seq w) \<Longrightarrow> length (seq w) < 2 ^ 64 \<Longrightarrow> unat (size_ss w - 2) = length (seq w) - 2"
  using unat_size_ss [of w] by (simp add: unat_sub word_le_nat_alt)

lemma unat_size_minus1:
  "1 \<le> length (seq w) \<Longrightarrow> length (seq w) < 2 ^ 64 \<Longrightarrow> unat (size_ss w - 1) = length (seq w) - 1"
  using unat_size_ss [of w] by (simp add: unat_sub word_le_nat_alt)

lemma unat_pred:
  fixes i :: size_t
  shows "0 < i \<Longrightarrow> unat (i - 1) = unat i - 1"
  by (simp add: unat_sub word_le_nat_alt word_less_nat_alt)

lemma isContainingSegment_nat:
  assumes "unat segIndex + 1 < length (seq w)" and "length (seq w) < 2 ^ 64"
  shows "isContainingSegment w segIndex pt =
     Inr (pt = seq w ! unat segIndex \<or> pt \<noteq> seq w ! (unat segIndex + 1) \<or>
          (hd (seq w) \<noteq> last (seq w) \<and> unat segIndex = length (seq w) - 2))"
proof -
  have ne: "seq w \<noteq> []" using assms by auto
  have fin: "(segIndex = size_ss w - 2) = (unat segIndex = length (seq w) - 2)"
    using assms unat_size_minus2 [of w] by (simp add: word_unat_eq_iff)
  show ?thesis
    using assms
    by (simp add: isContainingSegment_def getCoordinate_valid bind_err_Inr unat_succ
        isClosed_nonempty [OF ne] equals2D_iff fin)
qed


lemma valid_nonempty: "unat (i::size_t) + 1 < length xs \<Longrightarrow> xs \<noteq> []"
  by (cases xs) simp_all

lemma size_ss_eq_2: "length (seq w) < 2 ^ 64 \<Longrightarrow> (size_ss w = 2) = (length (seq w) = 2)"
  using unat_size_ss [of w] by (auto simp: word_unat_eq_iff)

lemma less_size_minus2:
  assumes "2 \<le> length (seq w)" and "length (seq w) < 2 ^ 64"
  shows "(i < size_ss w - 2) = (unat i + 2 < length (seq w))"
  using assms unat_size_minus2 [of w] by (auto simp: word_less_nat_alt)

lemma prevVertex_nat:
  assumes "unat segIndex + 1 < length (seq w)" and "length (seq w) < 2 ^ 64"
  shows "prevVertex w segIndex pt =
     Inr (if seq w ! unat segIndex \<noteq> pt then Some (seq w ! unat segIndex)
          else if 0 < unat segIndex then Some (seq w ! (unat segIndex - 1))
          else if hd (seq w) = last (seq w) then Some (seq w ! (length (seq w) - 2))
          else None)"
proof -
  have ne: "seq w \<noteq> []" using assms(1) by (rule valid_nonempty)
  have pos: "(0 < segIndex) = (0 < unat segIndex)"
    by (simp add: word_less_nat_alt)
  have prev: "0 < segIndex \<Longrightarrow> getCoordinate w (segIndex - 1) = Inr (seq w ! (unat segIndex - 1))"
    using assms by (simp add: getCoordinate_def unat_pred)
  have ring: "prevInRing w 0 = Inr (seq w ! (length (seq w) - 2))"
    using assms unat_size_minus2 [of w] by (simp add: prevInRing_def getCoordinate_def)
  have zero: "\<not> 0 < unat segIndex \<Longrightarrow> segIndex = 0"
    by (simp add: unat_gt_0)
  show ?thesis
  proof (cases "0 < unat segIndex")
    case True
    then show ?thesis
      using assms prev pos
      by (simp add: prevVertex_def getCoordinate_valid bind_err_Inr equals2D_iff)
  next
    case False
    then have z: "segIndex = 0" by (rule zero)
    have c0: "getCoordinate w 0 = Inr (seq w ! 0)"
      using ne by (simp add: getCoordinate_def)
    show ?thesis
      using ring c0
      by (simp add: z prevVertex_def bind_err_Inr equals2D_iff isClosed_nonempty [OF ne])
  qed
qed

lemma nextVertex_nat:
  assumes "unat segIndex + 1 < length (seq w)" and "length (seq w) < 2 ^ 64"
  shows "nextVertex INDEX_UNKNOWN w segIndex pt =
     Inr (if seq w ! (unat segIndex + 1) \<noteq> pt then Some (seq w ! (unat segIndex + 1))
          else if length (seq w) = 2 \<and> segIndex = INDEX_UNKNOWN then Some (seq w ! 0)
          else if unat segIndex + 2 < length (seq w) then Some (seq w ! (unat segIndex + 2))
          else if hd (seq w) = last (seq w) then Some (seq w ! 1)
          else None)"
proof -
  have ne: "seq w \<noteq> []" using assms(1) by (rule valid_nonempty)
  have two: "2 \<le> length (seq w)" using assms by simp
  have c0: "getCoordinate w 0 = Inr (seq w ! 0)"
    using ne by (simp add: getCoordinate_def)
  have c2: "unat segIndex + 2 < length (seq w) \<Longrightarrow>
      getCoordinate w (segIndex + 2) = Inr (seq w ! (unat segIndex + 2))"
    using assms by (simp add: getCoordinate_def unat_succ2)
  have ring: "\<not> unat segIndex + 2 < length (seq w) \<Longrightarrow> nextInRing w (segIndex + 1) = Inr (seq w ! 1)"
  proof -
    assume "\<not> unat segIndex + 2 < length (seq w)"
    then have n: "unat segIndex + 2 = length (seq w)" using assms by simp
    then have "unat (segIndex + 1 + 1) = length (seq w)"
      using assms by (simp add: unat_word_ariths)
    then have "segIndex + 1 + 1 > size_ss w - 1"
      using assms two unat_size_minus1 [of w] by (simp add: word_less_nat_alt)
    then show ?thesis
      using two by (simp add: nextInRing_def getCoordinate_def)
  qed
  show ?thesis
    using assms c0 c2 ring
    by (simp add: nextVertex_def getCoordinate_valid bind_err_Inr equals2D_iff unat_succ
        size_ss_eq_2 less_size_minus2 [OF two] isClosed_nonempty [OF ne])
qed

section \<open>Repeated points and counting lemmas\<close>

lemma filter_nth_count:
  "k \<le> length xs \<Longrightarrow> length (filter (\<lambda>i. xs ! i = v) [0..<k]) = count_list (take k xs) v"
proof (induction k)
  case 0
  then show ?case by simp
next
  case (Suc k)
  then show ?case
    by (auto simp add: take_Suc_conv_app_nth)
qed

lemma no_repeated_nth:
  "\<not> hasRepeatedPoints xs \<Longrightarrow> i + 1 < length xs \<Longrightarrow> xs ! i \<noteq> xs ! (i + 1)"
proof (induction xs arbitrary: i rule: hasRepeatedPoints.induct)
  case (1 p q ps)
  then show ?case
    by (cases i) (auto simp add: equals2D_iff)
qed simp_all

lemma hasRepeatedPoints_distinct_adj: "hasRepeatedPoints xs = (\<not> distinct_adj xs)"
  by (induction xs rule: hasRepeatedPoints.induct) (auto simp add: equals2D_iff)

lemma removeRepeatedPoints_remdups_adj: "removeRepeatedPoints xs = remdups_adj xs"
  by (induction xs rule: removeRepeatedPoints.induct) (auto simp add: equals2D_iff)

lemma hasRepeatedPoints_removeRepeatedPoints: "\<not> hasRepeatedPoints (removeRepeatedPoints xs)"
  by (simp add: hasRepeatedPoints_distinct_adj removeRepeatedPoints_remdups_adj)

lemma unat_of_nat_index: "i < 2 ^ 64 \<Longrightarrow> unat (of_nat i :: size_t) = i"
  by (simp add: unat_of_nat)

lemma closed_ring_claim:
  assumes "isClosed w = Inr True" and "length (seq w) < 2 ^ 64" and "i < length (seq w) - 1"
  shows "isContainingSegment w (of_nat i) v = Inr (v = seq w ! i \<or> v \<noteq> seq w ! (i + 1))"
proof -
  have u: "unat (of_nat i :: size_t) = i"
    using assms(2,3) by (simp add: unat_of_nat_index)
  have v: "unat (of_nat i :: size_t) + 1 < length (seq w)"
    using assms(3) by (simp add: u)
  have ne: "seq w \<noteq> []" using v by (rule valid_nonempty)
  from assms(1) have "hd (seq w) = last (seq w)"
    by (simp add: isClosed_nonempty [OF ne])
  then show ?thesis
    by (simp add: isContainingSegment_nat [OF v assms(2)] u)
qed

lemma closed_vertex_before_closing_point:
  assumes "hd xs = last xs" and "2 \<le> length xs" and "v \<in> set xs"
  shows "v \<in> set (butlast xs)"
proof -
  from assms(2) have ne: "xs \<noteq> []" and bne: "butlast xs \<noteq> []"
    by (auto simp add: butlast_conv_take)
  have split: "xs = butlast xs @ [last xs]" using ne by simp
  have "hd (butlast xs) = hd xs"
    using bne ne by (metis hd_append2 split)
  then have "last xs \<in> set (butlast xs)"
    using assms(1) bne by (metis hd_in_set)
  moreover have "v \<in> set (butlast xs) \<or> v = last xs"
    using assms(3) split by (metis Un_iff empty_iff empty_set set_ConsD set_append)
  ultimately show ?thesis by blast
qed

lemma closed_ring_claim_count:
  assumes "isClosed w = Inr True" and "length (seq w) < 2 ^ 64"
  shows "length (filter (\<lambda>i. (equals2D v (seq w ! i) \<or> equals2D v (seq w ! (i + 1)))
                            \<and> isContainingSegment w (of_nat i) v = Inr True)
                   [0..<length (seq w) - 1])
           = count_list (butlast (seq w)) v"
proof -
  have "filter (\<lambda>i. (equals2D v (seq w ! i) \<or> equals2D v (seq w ! (i + 1)))
                            \<and> isContainingSegment w (of_nat i) v = Inr True)
                   [0..<length (seq w) - 1]
        = filter (\<lambda>i. seq w ! i = v) [0..<length (seq w) - 1]"
    by (rule filter_cong) (auto simp add: closed_ring_claim [OF assms] equals2D_iff)
  then show ?thesis
    by (simp add: filter_nth_count butlast_conv_take)
qed

lemma closed_ring_vertex_claimed:
  assumes "isClosed w = Inr True" and "length (seq w) < 2 ^ 64"
  shows "(2 \<le> length (seq w) \<and> v \<in> set (seq w) \<longrightarrow>
            filter (\<lambda>i. (equals2D v (seq w ! i) \<or> equals2D v (seq w ! (i + 1)))
                            \<and> isContainingSegment w (of_nat i) v = Inr True)
                   [0..<length (seq w) - 1] \<noteq> [])"
proof
  assume h: "2 \<le> length (seq w) \<and> v \<in> set (seq w)"
  then have ne: "seq w \<noteq> []" by auto
  from assms(1) have "hd (seq w) = last (seq w)"
    by (simp add: isClosed_nonempty [OF ne])
  with h have "v \<in> set (butlast (seq w))"
    by (simp add: closed_vertex_before_closing_point)
  then have "count_list (butlast (seq w)) v \<noteq> 0"
    by (simp add: count_list_0_iff)
  then have "length (filter (\<lambda>i. (equals2D v (seq w ! i) \<or> equals2D v (seq w ! (i + 1)))
                            \<and> isContainingSegment w (of_nat i) v = Inr True)
                   [0..<length (seq w) - 1]) \<noteq> 0"
    by (metis closed_ring_claim_count [OF assms])
  then show "filter (\<lambda>i. (equals2D v (seq w ! i) \<or> equals2D v (seq w ! (i + 1)))
                            \<and> isContainingSegment w (of_nat i) v = Inr True)
                   [0..<length (seq w) - 1] \<noteq> []"
    by (metis list.size(3))
qed

lemma orientAndRemoveRepeated_flipped_with_repeats:
  assumes "hasRepeatedPoints (seq w)" and "orientCW = isCCW (seq w)" and "\<not> seq_in_csStore w"
  shows "orientAndRemoveRepeated orientCW w
    = Inr (w\<lparr>seq := rev (seq w), seq_in_csStore := True, csStore := Some (rev (seq w))\<rparr>)"
  using assms
  by (simp add: orientAndRemoveRepeated_def bind_err_def reverse_def clone_def)

section \<open>Node section synthesis on a concrete line\<close>

text \<open>
  Claim C7. On the open line \<open>[(0,0), (5,0), (10,0)]\<close>, \<^verbatim>\<open>createNodeSection(0, (5,0))\<close> returns
  a node section with \<open>isAtVertex = true\<close>, previous \<open>(0,0)\<close>, point \<open>(5,0)\<close> and next
  \<open>(10,0)\<close>, whatever the value of \<^verbatim>\<open>INDEX_UNKNOWN\<close>; the context fields are copied from
  the walk.
\<close>

theorem createNodeSection_open_line_vertex:
  "createNodeSection INDEX_UNKNOWN
     (line_of [CoordinateXY 0 0, CoordinateXY 5 0, CoordinateXY 10 0]) 0 (CoordinateXY 5 0)
   = Inr \<lparr> ns_isA = True, ns_dimension = 1, ns_id = 0, ns_ringId = - 1, ns_polygonal = None,
           ns_isNodeAtVertex = True, ns_prev = Some (CoordinateXY 0 0),
           ns_nodePt = CoordinateXY 5 0, ns_next = Some (CoordinateXY 10 0) \<rparr>"
  by (simp add: createNodeSection_def line_of_def borrowing_def getCoordinate_def bind_err_def
      prevVertex_def nextVertex_def equals2D_def size_ss_def)

section \<open>Which segment owns an intersection\<close>

text \<open>
  Claim C3, as the code has it. For a valid segment index of a walk whose size fits
  \<^verbatim>\<open>std::size_t\<close>, and any point: \<^verbatim>\<open>isContainingSegment\<close> returns true when the point equals
  the segment's start vertex; it returns true when the point equals neither endpoint (as
  every point strictly inside the segment does); when the point equals the end vertex and
  not the start vertex it returns true exactly when the walk is open and the segment is
  the final one (\<open>segIndex = size - 2\<close>); and the single segment of a 2-point open line
  claims the terminal vertex.
\<close>

theorem isContainingSegment_ownership:
  assumes "unat segIndex + 1 < length (seq w)" and "length (seq w) < 2 ^ 64"
  shows "(equals2D pt (seq w ! unat segIndex) \<longrightarrow> isContainingSegment w segIndex pt = Inr True)
       \<and> (\<not> equals2D pt (seq w ! unat segIndex) \<and> \<not> equals2D pt (seq w ! (unat segIndex + 1))
            \<longrightarrow> isContainingSegment w segIndex pt = Inr True)
       \<and> (\<not> equals2D pt (seq w ! unat segIndex) \<and> equals2D pt (seq w ! (unat segIndex + 1))
            \<longrightarrow> isContainingSegment w segIndex pt
                  = Inr (isClosed w = Inr False \<and> segIndex = size_ss w - 2))
       \<and> (length (seq w) = 2 \<and> isClosed w = Inr False
            \<longrightarrow> isContainingSegment w segIndex (last (seq w)) = Inr True)"
proof -
  have ne: "seq w \<noteq> []" using assms(1) by (rule valid_nonempty)
  have fin: "(segIndex = size_ss w - 2) = (unat segIndex = length (seq w) - 2)"
    using assms unat_size_minus2 [of w] by (simp add: word_unat_eq_iff)
  note nat = isContainingSegment_nat [OF assms]
  have a: "equals2D pt (seq w ! unat segIndex) \<longrightarrow> isContainingSegment w segIndex pt = Inr True"
    by (simp add: nat equals2D_iff)
  have b: "\<not> equals2D pt (seq w ! unat segIndex) \<and> \<not> equals2D pt (seq w ! (unat segIndex + 1))
            \<longrightarrow> isContainingSegment w segIndex pt = Inr True"
    by (simp add: nat equals2D_iff)
  have c: "\<not> equals2D pt (seq w ! unat segIndex) \<and> equals2D pt (seq w ! (unat segIndex + 1))
            \<longrightarrow> isContainingSegment w segIndex pt
                  = Inr (isClosed w = Inr False \<and> segIndex = size_ss w - 2)"
    by (auto simp add: nat equals2D_iff isClosed_nonempty [OF ne] fin)
  have d: "length (seq w) = 2 \<and> isClosed w = Inr False
            \<longrightarrow> isContainingSegment w segIndex (last (seq w)) = Inr True"
  proof
    assume h: "length (seq w) = 2 \<and> isClosed w = Inr False"
    then have i: "unat segIndex = 0" using assms(1) by simp
    from h have "hd (seq w) \<noteq> last (seq w)" by (simp add: isClosed_nonempty [OF ne])
    then show "isContainingSegment w segIndex (last (seq w)) = Inr True"
      using h by (simp add: nat i)
  qed
  from a b c d show ?thesis by blast
qed

theorem isContainingSegment_ownership_witness:
  "isContainingSegment (line_of [CoordinateXY 0 0, CoordinateXY 5 0, CoordinateXY 10 0]) 0
       (CoordinateXY 0 0) = Inr True
   \<and> isContainingSegment (line_of [CoordinateXY 0 0, CoordinateXY 5 0, CoordinateXY 10 0]) 0
       (CoordinateXY 2 0) = Inr True
   \<and> isContainingSegment (line_of [CoordinateXY 0 0, CoordinateXY 5 0, CoordinateXY 10 0]) 0
       (CoordinateXY 5 0) = Inr False
   \<and> isContainingSegment (line_of [CoordinateXY 0 0, CoordinateXY 5 0, CoordinateXY 10 0]) 1
       (CoordinateXY 10 0) = Inr True
   \<and> isContainingSegment (line_of [CoordinateXY 0 0, CoordinateXY 1 0]) 0 (CoordinateXY 1 0) = Inr True"
proof -
  let ?l = "line_of [CoordinateXY 0 0, CoordinateXY 5 0, CoordinateXY 10 0]"
  let ?s = "line_of [CoordinateXY 0 0, CoordinateXY 1 0]"
  have v0: "unat (0 :: size_t) + 1 < length (seq ?l)" and v1: "unat (1 :: size_t) + 1 < length (seq ?l)"
    and f: "length (seq ?l) < 2 ^ 64"
    and vs: "unat (0 :: size_t) + 1 < length (seq ?s)" and fs: "length (seq ?s) < 2 ^ 64"
    by (simp_all add: line_of_def borrowing_def)
  have facts:
    "seq ?l ! unat (0 :: size_t) = CoordinateXY 0 0"
    "seq ?l ! (unat (0 :: size_t) + 1) = CoordinateXY 5 0"
    "seq ?l ! unat (1 :: size_t) = CoordinateXY 5 0"
    "seq ?l ! (unat (1 :: size_t) + 1) = CoordinateXY 10 0"
    "isClosed ?l = Inr False" "size_ss ?l - 2 = 1"
    "length (seq ?s) = 2" "isClosed ?s = Inr False" "last (seq ?s) = CoordinateXY 1 0"
    by (simp_all add: line_of_def borrowing_def isClosed_def equals2D_def size_ss_def)
  have eqs:
    "equals2D (CoordinateXY 0 0) (CoordinateXY 0 0)"
    "\<not> equals2D (CoordinateXY 2 0) (CoordinateXY 0 0)"
    "\<not> equals2D (CoordinateXY 2 0) (CoordinateXY 5 0)"
    "\<not> equals2D (CoordinateXY 5 0) (CoordinateXY 0 0)"
    "equals2D (CoordinateXY 5 0) (CoordinateXY 5 0)"
    "\<not> equals2D (CoordinateXY 10 0) (CoordinateXY 5 0)"
    "equals2D (CoordinateXY 10 0) (CoordinateXY 10 0)"
    by (simp_all add: equals2D_def)
  from isContainingSegment_ownership [OF v0 f, of "CoordinateXY 0 0"] facts eqs
  have a: "isContainingSegment ?l 0 (CoordinateXY 0 0) = Inr True" by simp
  from isContainingSegment_ownership [OF v0 f, of "CoordinateXY 2 0"] facts eqs
  have b: "isContainingSegment ?l 0 (CoordinateXY 2 0) = Inr True" by simp
  from isContainingSegment_ownership [OF v0 f, of "CoordinateXY 5 0"] facts eqs
  have c: "isContainingSegment ?l 0 (CoordinateXY 5 0) = Inr False" by simp
  from isContainingSegment_ownership [OF v1 f, of "CoordinateXY 10 0"] facts eqs
  have d: "isContainingSegment ?l 1 (CoordinateXY 10 0) = Inr True" by simp
  from isContainingSegment_ownership [OF vs fs, of "CoordinateXY 1 0"] facts
  have e: "isContainingSegment ?s 0 (CoordinateXY 1 0) = Inr True" by simp
  from a b c d e show ?thesis by simp
qed

text \<open>
  The claim's end-vertex rule without the proviso "and not the start vertex" fails on a
  zero-length segment: on the line \<open>[(0,0), (0,0), (1,0)]\<close> the point \<open>(0,0)\<close> equals the end
  vertex of segment 0, which is not the final segment, and segment 0 still claims it.
\<close>

theorem isContainingSegment_end_vertex_counterexample:
  "unat (0 :: size_t) + 1 < length (seq (line_of [CoordinateXY 0 0, CoordinateXY 0 0, CoordinateXY 1 0]))
   \<and> equals2D (CoordinateXY 0 0)
        (seq (line_of [CoordinateXY 0 0, CoordinateXY 0 0, CoordinateXY 1 0]) ! (unat (0 :: size_t) + 1))
   \<and> isContainingSegment (line_of [CoordinateXY 0 0, CoordinateXY 0 0, CoordinateXY 1 0]) 0
        (CoordinateXY 0 0) = Inr True
   \<and> (0 :: size_t) \<noteq> size_ss (line_of [CoordinateXY 0 0, CoordinateXY 0 0, CoordinateXY 1 0]) - 2"
  by (simp add: line_of_def borrowing_def isContainingSegment_def getCoordinate_def bind_err_def
      equals2D_def size_ss_def)

text \<open>
  Claim C10. Whenever the segment's start vertex exists and the point equals it,
  \<^verbatim>\<open>isContainingSegment\<close> returns true, before the end vertex, the closedness or the index
  are looked at. Hence, where a walk has a zero-length segment \<open>i\<close> (vertices \<open>i\<close> and
  \<open>i + 1\<close> equal) followed by another segment, both segment \<open>i\<close> and segment \<open>i + 1\<close>
  claim the duplicated point.
\<close>

theorem isContainingSegment_start_precedence:
  "(getCoordinate w segIndex = Inr c0 \<and> equals2D pt c0
      \<longrightarrow> isContainingSegment w segIndex pt = Inr True)
   \<and> (unat i + 2 < length (seq w) \<and> length (seq w) < 2 ^ 64
        \<and> equals2D (seq w ! unat i) (seq w ! (unat i + 1))
      \<longrightarrow> isContainingSegment w i (seq w ! (unat i + 1)) = Inr True
          \<and> isContainingSegment w (i + 1) (seq w ! (unat i + 1)) = Inr True)"
proof (intro conjI impI)
  assume "getCoordinate w segIndex = Inr c0 \<and> equals2D pt c0"
  then show "isContainingSegment w segIndex pt = Inr True"
    by (simp add: isContainingSegment_def bind_err_Inr)
next
  assume a: "unat i + 2 < length (seq w) \<and> length (seq w) < 2 ^ 64
        \<and> equals2D (seq w ! unat i) (seq w ! (unat i + 1))"
  then have v: "unat i + 1 < length (seq w)" and f: "length (seq w) < 2 ^ 64" by simp_all
  from a show "isContainingSegment w i (seq w ! (unat i + 1)) = Inr True"
    by (simp add: isContainingSegment_nat [OF v f] equals2D_iff)
next
  assume a: "unat i + 2 < length (seq w) \<and> length (seq w) < 2 ^ 64
        \<and> equals2D (seq w ! unat i) (seq w ! (unat i + 1))"
  then have v: "unat i + 1 < length (seq w)" and f: "length (seq w) < 2 ^ 64" by simp_all
  have u: "unat (i + 1) = unat i + 1" using v f by (rule unat_succ)
  have v': "unat (i + 1) + 1 < length (seq w)" using a u by simp
  show "isContainingSegment w (i + 1) (seq w ! (unat i + 1)) = Inr True"
    by (simp add: isContainingSegment_nat [OF v' f] u)
qed

theorem isContainingSegment_start_precedence_witness:
  "isContainingSegment (line_of [CoordinateXY 0 0, CoordinateXY 0 0, CoordinateXY 1 0]) 0
        (CoordinateXY 0 0) = Inr True
   \<and> isContainingSegment (line_of [CoordinateXY 0 0, CoordinateXY 0 0, CoordinateXY 1 0]) 1
        (CoordinateXY 0 0) = Inr True
   \<and> isContainingSegment (line_of [CoordinateXY 0 0, CoordinateXY 1 0]) 0
        (CoordinateXY 0 0) = Inr True"
proof -
  let ?w = "line_of [CoordinateXY 0 0, CoordinateXY 0 0, CoordinateXY 1 0]"
  let ?s = "line_of [CoordinateXY 0 0, CoordinateXY 1 0]"
  have h: "unat (0 :: size_t) + 2 < length (seq ?w) \<and> length (seq ?w) < 2 ^ 64
        \<and> equals2D (seq ?w ! unat (0 :: size_t)) (seq ?w ! (unat (0 :: size_t) + 1))"
    by (simp add: line_of_def borrowing_def equals2D_def)
  have s: "seq ?w ! Suc 0 = CoordinateXY 0 0"
    by (simp add: line_of_def borrowing_def)
  have g: "getCoordinate ?s 0 = Inr (CoordinateXY 0 0)
      \<and> equals2D (CoordinateXY 0 0) (CoordinateXY 0 0)"
    by (simp add: line_of_def borrowing_def getCoordinate_def equals2D_def)
  from isContainingSegment_start_precedence [of ?w 0 _ _ 0, THEN conjunct2, rule_format, OF h]
    isContainingSegment_start_precedence [of ?s 0 "CoordinateXY 0 0" "CoordinateXY 0 0" 0,
      THEN conjunct1, rule_format, OF g]
  show ?thesis by (simp add: s)
qed

section \<open>Neighbours at ring boundaries and open ends\<close>

text \<open>
  Claim C5. For a valid segment index of a walk whose size fits \<^verbatim>\<open>std::size_t\<close>, and any
  point, \<^verbatim>\<open>prevVertex\<close> and \<^verbatim>\<open>nextVertex\<close> return without a range error. On a closed
  ring neither result is absent, and \<^verbatim>\<open>prevVertex(0, ring[0])\<close> is the ring's second-to-last
  vertex. On an open walk \<^verbatim>\<open>prevVertex\<close> is absent exactly when the point equals the first
  vertex and \<open>segIndex = 0\<close>, and \<^verbatim>\<open>nextVertex\<close>, queried with an index that is not the
  sentinel \<^verbatim>\<open>INDEX_UNKNOWN\<close>, is absent exactly when the point equals the last vertex and
  the segment is the final one (\<open>segIndex = size - 2\<close>: no segment follows).
\<close>

theorem neighbours_absent_only_at_open_ends:
  assumes "unat segIndex + 1 < length (seq w)" and "length (seq w) < 2 ^ 64"
  shows "(\<exists>r. prevVertex w segIndex pt = Inr r)
       \<and> (\<exists>r. nextVertex INDEX_UNKNOWN w segIndex pt = Inr r)
       \<and> (isClosed w = Inr True \<longrightarrow>
            prevVertex w segIndex pt \<noteq> Inr None
          \<and> nextVertex INDEX_UNKNOWN w segIndex pt \<noteq> Inr None
          \<and> prevVertex w 0 (seq w ! 0) = Inr (Some (seq w ! (length (seq w) - 2))))
       \<and> (isClosed w = Inr False \<longrightarrow>
            (prevVertex w segIndex pt = Inr None
               \<longleftrightarrow> equals2D pt (seq w ! 0) \<and> segIndex = 0)
          \<and> (segIndex \<noteq> INDEX_UNKNOWN \<longrightarrow>
               (nextVertex INDEX_UNKNOWN w segIndex pt = Inr None
                  \<longleftrightarrow> equals2D pt (last (seq w)) \<and> segIndex = size_ss w - 2)))"
proof -
  have ne: "seq w \<noteq> []" using assms(1) by (rule valid_nonempty)
  have two: "2 \<le> length (seq w)" using assms(1) by simp
  have fin: "(segIndex = size_ss w - 2) = (unat segIndex = length (seq w) - 2)"
    using assms unat_size_minus2 [of w] by (simp add: word_unat_eq_iff)
  have zero: "(segIndex = 0) = (unat segIndex = 0)"
    by (simp add: word_unat_eq_iff)
  have v0: "unat (0 :: size_t) + 1 < length (seq w)" using two by simp
  note p = prevVertex_nat [OF assms]
  note n = nextVertex_nat [OF assms]
  have a: "\<exists>r. prevVertex w segIndex pt = Inr r" by (simp add: p)
  have b: "\<exists>r. nextVertex INDEX_UNKNOWN w segIndex pt = Inr r" by (simp add: n)
  have c1: "isClosed w = Inr True \<longrightarrow> prevVertex w segIndex pt \<noteq> Inr None"
    by (simp add: p isClosed_nonempty [OF ne])
  have c2: "isClosed w = Inr True \<longrightarrow> nextVertex INDEX_UNKNOWN w segIndex pt \<noteq> Inr None"
    by (simp add: n isClosed_nonempty [OF ne])
  have c3: "isClosed w = Inr True \<longrightarrow>
      prevVertex w 0 (seq w ! 0) = Inr (Some (seq w ! (length (seq w) - 2)))"
    by (simp add: prevVertex_nat [OF v0 assms(2)] isClosed_nonempty [OF ne])
  have d1: "isClosed w = Inr False \<longrightarrow>
      (prevVertex w segIndex pt = Inr None \<longleftrightarrow> equals2D pt (seq w ! 0) \<and> segIndex = 0)"
    by (auto simp add: p isClosed_nonempty [OF ne] equals2D_iff zero)
  have d2: "isClosed w = Inr False \<longrightarrow> segIndex \<noteq> INDEX_UNKNOWN \<longrightarrow>
      (nextVertex INDEX_UNKNOWN w segIndex pt = Inr None
         \<longleftrightarrow> equals2D pt (last (seq w)) \<and> segIndex = size_ss w - 2)"
  proof (intro impI)
    assume op: "isClosed w = Inr False" and neq: "segIndex \<noteq> INDEX_UNKNOWN"
    from op have hl: "hd (seq w) \<noteq> last (seq w)" by (simp add: isClosed_nonempty [OF ne])
    show "nextVertex INDEX_UNKNOWN w segIndex pt = Inr None
         \<longleftrightarrow> equals2D pt (last (seq w)) \<and> segIndex = size_ss w - 2"
    proof (cases "unat segIndex + 2 < length (seq w)")
      case True
      then have "unat segIndex \<noteq> length (seq w) - 2" by simp
      with True show ?thesis by (simp add: n fin)
    next
      case False
      with assms(1) have e: "unat segIndex = length (seq w) - 2" by simp
      then have "unat segIndex + 1 = length (seq w) - 1" using two by simp
      then have l: "seq w ! (unat segIndex + 1) = last (seq w)"
        using ne by (simp add: last_conv_nth)
      from False neq hl
      have nv: "nextVertex INDEX_UNKNOWN w segIndex pt
          = Inr (if last (seq w) \<noteq> pt then Some (last (seq w)) else None)"
        by (auto simp add: n l simp del: One_nat_def)
      show ?thesis
        by (auto simp add: nv fin e equals2D_iff)
    qed
  qed
  from a b c1 c2 c3 d1 d2 show ?thesis by blast
qed

theorem neighbours_absent_only_at_open_ends_witness:
  "prevVertex (ring_of [CoordinateXY 0 0, CoordinateXY 1 0, CoordinateXY 0 1, CoordinateXY 0 0]) 0
       (CoordinateXY 0 0) = Inr (Some (CoordinateXY 0 1))
   \<and> nextVertex (- 1) (ring_of [CoordinateXY 0 0, CoordinateXY 1 0, CoordinateXY 0 1, CoordinateXY 0 0]) 0
       (CoordinateXY 0 0) \<noteq> Inr None
   \<and> prevVertex (line_of [CoordinateXY 0 0, CoordinateXY 1 0]) 0 (CoordinateXY 0 0) = Inr None
   \<and> nextVertex (- 1) (line_of [CoordinateXY 0 0, CoordinateXY 1 0]) 0 (CoordinateXY 1 0) = Inr None"
proof -
  let ?r = "ring_of [CoordinateXY 0 0, CoordinateXY 1 0, CoordinateXY 0 1, CoordinateXY 0 0]"
  let ?l = "line_of [CoordinateXY 0 0, CoordinateXY 1 0]"
  have vr: "unat (0 :: size_t) + 1 < length (seq ?r)" and fr: "length (seq ?r) < 2 ^ 64"
    and vl: "unat (0 :: size_t) + 1 < length (seq ?l)" and fl: "length (seq ?l) < 2 ^ 64"
    by (simp_all add: ring_of_def line_of_def borrowing_def)
  have cr: "isClosed ?r = Inr True" and cl: "isClosed ?l = Inr False"
    by (simp_all add: ring_of_def line_of_def borrowing_def isClosed_def equals2D_def)
  have sr: "seq ?r ! 0 = CoordinateXY 0 0" "seq ?r ! (length (seq ?r) - 2) = CoordinateXY 0 1"
    by (simp_all add: ring_of_def borrowing_def)
  have sl: "equals2D (CoordinateXY 0 0) (seq ?l ! 0)" "equals2D (CoordinateXY 1 0) (last (seq ?l))"
    "(0 :: size_t) = size_ss ?l - 2" "(0 :: size_t) \<noteq> - 1"
    by (simp_all add: line_of_def borrowing_def equals2D_def size_ss_def)
  from neighbours_absent_only_at_open_ends [OF vr fr, of "CoordinateXY 0 0" "- 1"] cr sr
  have a: "prevVertex ?r 0 (CoordinateXY 0 0) = Inr (Some (CoordinateXY 0 1))"
    and b: "nextVertex (- 1) ?r 0 (CoordinateXY 0 0) \<noteq> Inr None"
    by simp_all
  from neighbours_absent_only_at_open_ends [OF vl fl, of "CoordinateXY 0 0" "- 1"] cl sl
  have c: "prevVertex ?l 0 (CoordinateXY 0 0) = Inr None"
    by simp
  from neighbours_absent_only_at_open_ends [OF vl fl, of "CoordinateXY 1 0" "- 1"] cl sl
  have d: "nextVertex (- 1) ?l 0 (CoordinateXY 1 0) = Inr None"
    by simp
  from a b c d show ?thesis by simp
qed

text \<open>
  Claim C6. On a 2-point walk queried with the sentinel itself, a point equal to the end
  vertex of the (wrapped) segment makes \<^verbatim>\<open>nextVertex\<close> return vertex 0. For an index that
  is not the sentinel the result does not depend on the sentinel's value at all: the
  special case plays no part. In particular a 2-point open walk queried with the actual
  segment index 0 (the sentinel being another value) and its end vertex has no next
  vertex.
\<close>

theorem nextVertex_sentinel_special_case:
  "(length (seq w) = 2 \<and> unat (INDEX_UNKNOWN + 1) < 2
      \<and> equals2D (seq w ! unat (INDEX_UNKNOWN + 1)) pt
      \<longrightarrow> nextVertex INDEX_UNKNOWN w INDEX_UNKNOWN pt = Inr (Some (seq w ! 0)))
   \<and> (segIndex \<noteq> INDEX_UNKNOWN \<and> segIndex \<noteq> other
      \<longrightarrow> nextVertex INDEX_UNKNOWN w segIndex pt = nextVertex other w segIndex pt)
   \<and> (length (seq w) = 2 \<and> isClosed w = Inr False \<and> INDEX_UNKNOWN \<noteq> 0
      \<longrightarrow> nextVertex INDEX_UNKNOWN w 0 (seq w ! 1) = Inr None)"
proof (intro conjI impI)
  assume h: "length (seq w) = 2 \<and> unat (INDEX_UNKNOWN + 1) < 2
      \<and> equals2D (seq w ! unat (INDEX_UNKNOWN + 1)) pt"
  then show "nextVertex INDEX_UNKNOWN w INDEX_UNKNOWN pt = Inr (Some (seq w ! 0))"
    by (simp add: nextVertex_def getCoordinate_def bind_err_Inr size_ss_def)
next
  assume "segIndex \<noteq> INDEX_UNKNOWN \<and> segIndex \<noteq> other"
  then show "nextVertex INDEX_UNKNOWN w segIndex pt = nextVertex other w segIndex pt"
    by (simp add: nextVertex_def)
next
  assume h: "length (seq w) = 2 \<and> isClosed w = Inr False \<and> INDEX_UNKNOWN \<noteq> 0"
  then have v: "unat (0 :: size_t) + 1 < length (seq w)" and f: "length (seq w) < 2 ^ 64"
    by simp_all
  have ne: "seq w \<noteq> []" using v by (rule valid_nonempty)
  from h show "nextVertex INDEX_UNKNOWN w 0 (seq w ! 1) = Inr None"
    by (simp add: nextVertex_nat [OF v f] isClosed_nonempty [OF ne])
qed

theorem nextVertex_sentinel_special_case_witness:
  "nextVertex (- 1) (line_of [CoordinateXY 0 0, CoordinateXY 1 0]) (- 1) (CoordinateXY 0 0)
       = Inr (Some (CoordinateXY 0 0))
   \<and> nextVertex (- 1) (line_of [CoordinateXY 0 0, CoordinateXY 1 0]) 0 (CoordinateXY 1 0) = Inr None"
proof -
  let ?l = "line_of [CoordinateXY 0 0, CoordinateXY 1 0]"
  have h1: "length (seq ?l) = 2 \<and> unat (- 1 + 1 :: size_t) < 2
      \<and> equals2D (seq ?l ! unat (- 1 + 1 :: size_t)) (CoordinateXY 0 0)"
    by (simp add: line_of_def borrowing_def equals2D_def)
  have h3: "length (seq ?l) = 2 \<and> isClosed ?l = Inr False \<and> (- 1 :: size_t) \<noteq> 0"
    by (simp add: line_of_def borrowing_def isClosed_def equals2D_def)
  have s: "seq ?l ! 0 = CoordinateXY 0 0" "seq ?l ! 1 = CoordinateXY 1 0"
    by (simp_all add: line_of_def borrowing_def)
  note t = nextVertex_sentinel_special_case [of ?l "- 1" "CoordinateXY 0 0" 0 0]
  from t [THEN conjunct1, rule_format, OF h1] t [THEN conjunct2, THEN conjunct2, rule_format, OF h3] s
  show ?thesis by simp
qed

section \<open>Claims on a closed ring\<close>

text \<open>
  Claim C4, as the code has it. On a closed ring whose size fits \<^verbatim>\<open>std::size_t\<close>, the
  segments that have a point \<open>v\<close> as an endpoint and claim it are exactly as many as the
  positions before the closing point at which \<open>v\<close> occurs: one when \<open>v\<close> occurs once,
  and at least one for every vertex of a ring of two or more points. When the ring has no
  consecutive repeated points,
  every segment claims its start vertex and declines its end vertex, so every vertex
  position is claimed once.
\<close>

theorem closed_ring_vertex_claims:
  assumes "isClosed w = Inr True" and "length (seq w) < 2 ^ 64"
  shows "length (filter (\<lambda>i. (equals2D v (seq w ! i) \<or> equals2D v (seq w ! (i + 1)))
                            \<and> isContainingSegment w (of_nat i) v = Inr True)
                   [0..<length (seq w) - 1])
           = count_list (butlast (seq w)) v
       \<and> (2 \<le> length (seq w) \<and> v \<in> set (seq w) \<longrightarrow>
            filter (\<lambda>i. (equals2D v (seq w ! i) \<or> equals2D v (seq w ! (i + 1)))
                            \<and> isContainingSegment w (of_nat i) v = Inr True)
                   [0..<length (seq w) - 1] \<noteq> [])
       \<and> (\<not> hasRepeatedPoints (seq w) \<longrightarrow>
            (\<forall>i<length (seq w) - 1.
                isContainingSegment w (of_nat i) (seq w ! i) = Inr True
              \<and> isContainingSegment w (of_nat i) (seq w ! (i + 1)) = Inr False))"
proof (intro conjI)
  show "length (filter (\<lambda>i. (equals2D v (seq w ! i) \<or> equals2D v (seq w ! (i + 1)))
                            \<and> isContainingSegment w (of_nat i) v = Inr True)
                   [0..<length (seq w) - 1])
           = count_list (butlast (seq w)) v"
    using assms by (rule closed_ring_claim_count)
next
  show "2 \<le> length (seq w) \<and> v \<in> set (seq w) \<longrightarrow>
            filter (\<lambda>i. (equals2D v (seq w ! i) \<or> equals2D v (seq w ! (i + 1)))
                            \<and> isContainingSegment w (of_nat i) v = Inr True)
                   [0..<length (seq w) - 1] \<noteq> []"
    using assms by (rule closed_ring_vertex_claimed)
next
  show "\<not> hasRepeatedPoints (seq w) \<longrightarrow>
            (\<forall>i<length (seq w) - 1.
                isContainingSegment w (of_nat i) (seq w ! i) = Inr True
              \<and> isContainingSegment w (of_nat i) (seq w ! (i + 1)) = Inr False)"
  proof (intro impI allI)
    fix i
    assume nr: "\<not> hasRepeatedPoints (seq w)" and i: "i < length (seq w) - 1"
    then have "seq w ! i \<noteq> seq w ! (i + 1)"
      by (intro no_repeated_nth) simp_all
    then show "isContainingSegment w (of_nat i) (seq w ! i) = Inr True
              \<and> isContainingSegment w (of_nat i) (seq w ! (i + 1)) = Inr False"
      by (auto simp add: closed_ring_claim [OF assms i])
  qed
qed

theorem closed_ring_vertex_claims_witness:
  "length (filter (\<lambda>i. (equals2D (CoordinateXY 0 0)
                 (seq (ring_of [CoordinateXY 0 0, CoordinateXY 1 0, CoordinateXY 0 1, CoordinateXY 0 0]) ! i)
               \<or> equals2D (CoordinateXY 0 0)
                 (seq (ring_of [CoordinateXY 0 0, CoordinateXY 1 0, CoordinateXY 0 1, CoordinateXY 0 0]) ! (i + 1)))
             \<and> isContainingSegment
                 (ring_of [CoordinateXY 0 0, CoordinateXY 1 0, CoordinateXY 0 1, CoordinateXY 0 0])
                 (of_nat i) (CoordinateXY 0 0) = Inr True)
       [0..<length (seq (ring_of [CoordinateXY 0 0, CoordinateXY 1 0, CoordinateXY 0 1, CoordinateXY 0 0])) - 1])
   = 1
   \<and> isContainingSegment (ring_of [CoordinateXY 0 0, CoordinateXY 1 0, CoordinateXY 0 1, CoordinateXY 0 0])
        2 (CoordinateXY 0 1) = Inr True
   \<and> isContainingSegment (ring_of [CoordinateXY 0 0, CoordinateXY 1 0, CoordinateXY 0 1, CoordinateXY 0 0])
        2 (CoordinateXY 0 0) = Inr False"
proof -
  let ?r = "ring_of [CoordinateXY 0 0, CoordinateXY 1 0, CoordinateXY 0 1, CoordinateXY 0 0]"
  have c: "isClosed ?r = Inr True" and f: "length (seq ?r) < 2 ^ 64"
    by (simp_all add: ring_of_def borrowing_def isClosed_def equals2D_def)
  have n: "count_list (butlast (seq ?r)) (CoordinateXY 0 0) = 1"
    by (simp add: ring_of_def borrowing_def)
  have nr: "\<not> hasRepeatedPoints (seq ?r)" and i: "2 < length (seq ?r) - 1"
    and s: "seq ?r ! 2 = CoordinateXY 0 1" "seq ?r ! (2 + 1) = CoordinateXY 0 0"
    by (simp_all add: ring_of_def borrowing_def equals2D_def)
  note t = closed_ring_vertex_claims [OF c f, of "CoordinateXY 0 0"]
  from t [THEN conjunct1] n
  have a: "length (filter (\<lambda>i. (equals2D (CoordinateXY 0 0) (seq ?r ! i)
               \<or> equals2D (CoordinateXY 0 0) (seq ?r ! (i + 1)))
             \<and> isContainingSegment ?r (of_nat i) (CoordinateXY 0 0) = Inr True)
       [0..<length (seq ?r) - 1]) = 1"
    by (simp only:)
  from t [THEN conjunct2, THEN conjunct2, rule_format, OF nr i] s
  have b: "isContainingSegment ?r 2 (CoordinateXY 0 1) = Inr True
      \<and> isContainingSegment ?r 2 (CoordinateXY 0 0) = Inr False"
    by simp
  from a b show ?thesis by (rule conjI)
qed

text \<open>
  Without a restriction on the ring the claim fails: in the closed ring
  \<open>[(0,0), (0,0), (1,0), (0,1), (0,0)]\<close> the point \<open>(0,0)\<close> is the start vertex of segment 0
  and of segment 1, and both claim it.
\<close>

theorem closed_ring_repeated_vertex_counterexample:
  "isClosed (ring_of [CoordinateXY 0 0, CoordinateXY 0 0, CoordinateXY 1 0, CoordinateXY 0 1, CoordinateXY 0 0])
     = Inr True
   \<and> isContainingSegment
       (ring_of [CoordinateXY 0 0, CoordinateXY 0 0, CoordinateXY 1 0, CoordinateXY 0 1, CoordinateXY 0 0])
       0 (CoordinateXY 0 0) = Inr True
   \<and> isContainingSegment
       (ring_of [CoordinateXY 0 0, CoordinateXY 0 0, CoordinateXY 1 0, CoordinateXY 0 1, CoordinateXY 0 0])
       1 (CoordinateXY 0 0) = Inr True
   \<and> equals2D (CoordinateXY 0 0)
       (seq (ring_of [CoordinateXY 0 0, CoordinateXY 0 0, CoordinateXY 1 0, CoordinateXY 0 1, CoordinateXY 0 0]) ! 0)
   \<and> equals2D (CoordinateXY 0 0)
       (seq (ring_of [CoordinateXY 0 0, CoordinateXY 0 0, CoordinateXY 1 0, CoordinateXY 0 1, CoordinateXY 0 0]) ! 1)
   \<and> (0 :: size_t) \<noteq> 1"
  by (simp add: ring_of_def borrowing_def isClosed_def isContainingSegment_def getCoordinate_def
      bind_err_def equals2D_def)

section \<open>Normalisation\<close>

text \<open>
  Claim C8. On a sequence without consecutive repeated points,
  \<^verbatim>\<open>orientAndRemoveRepeated(orientCW)\<close> changes nothing when the sequence already has the
  requested orientation (\<open>orientCW \<noteq> isCCW\<close>), and otherwise adopts the sequence in reverse
  point order, with the same multiset of points.
\<close>

theorem orientAndRemoveRepeated_without_repeats:
  assumes "\<not> hasRepeatedPoints (seq w)"
  shows "(orientCW \<noteq> isCCW (seq w) \<longrightarrow> orientAndRemoveRepeated orientCW w = Inr w)
       \<and> (orientCW = isCCW (seq w) \<longrightarrow>
            (\<exists>w'. orientAndRemoveRepeated orientCW w = Inr w'
                 \<and> seq w' = rev (seq w) \<and> mset (seq w') = mset (seq w)))"
  using assms
  by (simp add: orientAndRemoveRepeated_def bind_err_def reverse_def clone_def)

theorem orientAndRemoveRepeated_without_repeats_witness:
  "orientAndRemoveRepeated False
     (ring_of [CoordinateXY 0 0, CoordinateXY 10 0, CoordinateXY 10 10, CoordinateXY 0 10, CoordinateXY 0 0])
     = Inr (ring_of [CoordinateXY 0 0, CoordinateXY 10 0, CoordinateXY 10 10, CoordinateXY 0 10, CoordinateXY 0 0])
   \<and> (\<exists>w'. orientAndRemoveRepeated True
          (ring_of [CoordinateXY 0 0, CoordinateXY 10 0, CoordinateXY 10 10, CoordinateXY 0 10, CoordinateXY 0 0])
          = Inr w'
        \<and> seq w' = [CoordinateXY 0 0, CoordinateXY 0 10, CoordinateXY 10 10, CoordinateXY 10 0, CoordinateXY 0 0])"
proof -
  let ?r = "ring_of [CoordinateXY 0 0, CoordinateXY 10 0, CoordinateXY 10 10, CoordinateXY 0 10, CoordinateXY 0 0]"
  have nr: "\<not> hasRepeatedPoints (seq ?r)"
    by (simp add: ring_of_def borrowing_def equals2D_def)
  have ccw: "isCCW (seq ?r)"
    by (simp add: ring_of_def borrowing_def isCCW_def)
  have r: "rev (seq ?r) = [CoordinateXY 0 0, CoordinateXY 0 10, CoordinateXY 10 10, CoordinateXY 10 0, CoordinateXY 0 0]"
    by (simp add: ring_of_def borrowing_def)
  from orientAndRemoveRepeated_without_repeats [OF nr, of False] ccw
  have a: "orientAndRemoveRepeated False ?r = Inr ?r" by simp
  from orientAndRemoveRepeated_without_repeats [OF nr, of True] ccw r
  have b: "\<exists>w'. orientAndRemoveRepeated True ?r = Inr w'
        \<and> seq w' = [CoordinateXY 0 0, CoordinateXY 0 10, CoordinateXY 10 10, CoordinateXY 10 0, CoordinateXY 0 0]"
    by auto
  from a b show ?thesis by (rule conjI)
qed

text \<open>
  Claim C9. \<^verbatim>\<open>removeRepeated\<close> leaves a walk without consecutive repeated points as it is,
  and a second call changes nothing after the first.
\<close>

theorem removeRepeated_noop_idempotent:
  "(\<not> hasRepeatedPoints (seq w) \<longrightarrow> removeRepeated w = w)
   \<and> removeRepeated (removeRepeated w) = removeRepeated w"
proof
  show "\<not> hasRepeatedPoints (seq w) \<longrightarrow> removeRepeated w = w"
    by (simp add: removeRepeated_def)
next
  show "removeRepeated (removeRepeated w) = removeRepeated w"
  proof (cases "hasRepeatedPoints (seq w)")
    case True
    then have "seq (removeRepeated w) = removeRepeatedPoints (seq w)"
      by (simp add: removeRepeated_def Let_def)
    then have "\<not> hasRepeatedPoints (seq (removeRepeated w))"
      by (simp add: hasRepeatedPoints_removeRepeatedPoints)
    then show ?thesis
      by (simp add: removeRepeated_def [of "removeRepeated w"])
  next
    case False
    then show ?thesis by (simp add: removeRepeated_def)
  qed
qed

theorem removeRepeated_noop_idempotent_witness:
  "removeRepeated (line_of [CoordinateXY 0 0, CoordinateXY 5 0, CoordinateXY 10 0])
     = line_of [CoordinateXY 0 0, CoordinateXY 5 0, CoordinateXY 10 0]"
proof -
  let ?l = "line_of [CoordinateXY 0 0, CoordinateXY 5 0, CoordinateXY 10 0]"
  have nr: "\<not> hasRepeatedPoints (seq ?l)"
    by (simp add: line_of_def borrowing_def equals2D_def)
  from removeRepeated_noop_idempotent [of ?l, THEN conjunct1, rule_format, OF nr]
  show ?thesis .
qed

text \<open>
  Claim C1 says that a sequence with consecutive duplicates and the wrong orientation is
  replaced by the de-duplicated sequence in reverse order. In the source the block
  \<^verbatim>\<open>if (isFlipped)\<close> is not an \<^verbatim>\<open>else\<close> branch of \<^verbatim>\<open>if (hasRepeated)\<close>: it runs after it and
  overwrites \<^verbatim>\<open>csStore\<close> with the reversed clone of the original sequence, so the duplicates
  stay (lemma \<open>orientAndRemoveRepeated_flipped_with_repeats\<close>). On the square ring
  \<open>[(0,0), (0,0), (10,0), (10,10), (0,10), (0,0)]\<close> with \<open>orientCW = true\<close> the adopted
  sequence is \<open>[(0,0), (0,10), (10,10), (10,0), (0,0), (0,0)]\<close>, with six points, not the
  five-point ring of the claim.
\<close>

theorem orientAndRemoveRepeated_square_keeps_duplicate:
  "orientAndRemoveRepeated True
     (ring_of [CoordinateXY 0 0, CoordinateXY 0 0, CoordinateXY 10 0, CoordinateXY 10 10,
               CoordinateXY 0 10, CoordinateXY 0 0])
   = Inr ((ring_of [CoordinateXY 0 0, CoordinateXY 0 10, CoordinateXY 10 10, CoordinateXY 10 0,
                    CoordinateXY 0 0, CoordinateXY 0 0])
          \<lparr>seq_in_csStore := True,
           csStore := Some [CoordinateXY 0 0, CoordinateXY 0 10, CoordinateXY 10 10, CoordinateXY 10 0,
                            CoordinateXY 0 0, CoordinateXY 0 0]\<rparr>)"
  by (simp add: orientAndRemoveRepeated_def ring_of_def borrowing_def isCCW_def equals2D_def
      bind_err_def reverse_def clone_def)

text \<open>
  Claim C2 says that a second call with the same target changes nothing. On the same
  square the first call leaves the reversed six-point sequence; the second call finds it
  clockwise with a repeated point and removes that point, so two calls end with the
  five-point ring and one call with the six-point one.
\<close>

theorem orientAndRemoveRepeated_square_twice_differs:
  "map_sum id seq (orientAndRemoveRepeated True
     (ring_of [CoordinateXY 0 0, CoordinateXY 0 0, CoordinateXY 10 0, CoordinateXY 10 10,
               CoordinateXY 0 10, CoordinateXY 0 0]))
     = Inr [CoordinateXY 0 0, CoordinateXY 0 10, CoordinateXY 10 10, CoordinateXY 10 0,
            CoordinateXY 0 0, CoordinateXY 0 0]
   \<and> map_sum id seq (bind_err (orientAndRemoveRepeated True
     (ring_of [CoordinateXY 0 0, CoordinateXY 0 0, CoordinateXY 10 0, CoordinateXY 10 10,
               CoordinateXY 0 10, CoordinateXY 0 0])) (orientAndRemoveRepeated True))
     = Inr [CoordinateXY 0 0, CoordinateXY 0 10, CoordinateXY 10 10, CoordinateXY 10 0,
            CoordinateXY 0 0]"
  by (simp add: orientAndRemoveRepeated_def ring_of_def borrowing_def isCCW_def equals2D_def
      bind_err_def reverse_def clone_def)

end
